theory Spec2Isabelle
  imports Complex_Main "HOL-Library.AList" "HOL-Library.Sublist" "HOL-Library.Log_Nat"
begin

section \<open>Python values\<close>

text \<open>
  The demo module \<^verbatim>\<open>demos/demo-code-analysis.py\<close> works on values that come out of
  \<^verbatim>\<open>json.load\<close>: \<^verbatim>\<open>None\<close>, booleans, integers, floats, strings, lists and
  dictionaries with string keys. A dictionary is an association list in insertion order
  (keys distinct); a float is a finite value, an infinity or NaN (the two zeros of
  binary64 are one value here: they compare equal and are both falsy).
\<close>

datatype pyfloat = Finite rat | PosInf | NegInf | NaN

datatype pyval =
    PNone
  | PBool bool
  | PInt int
  | PFloat pyfloat
  | PStr string
  | PList "pyval list"
  | PDict "(string \<times> pyval) list"

type_synonym pydict = "(string \<times> pyval) list"

text \<open>The exceptions the modelled code can raise.\<close>

datatype error = TypeError | KeyError | OperationalError

text \<open>Truth value testing (\<^verbatim>\<open>if x:\<close>).\<close>

fun truthy :: "pyval \<Rightarrow> bool" where
  "truthy PNone = False"
| "truthy (PBool b) = b"
| "truthy (PInt i) = (i \<noteq> 0)"
| "truthy (PFloat f) = (f \<noteq> Finite 0)"
| "truthy (PStr s) = (s \<noteq> [])"
| "truthy (PList xs) = (xs \<noteq> [])"
| "truthy (PDict d) = (d \<noteq> [])"

text \<open>
  \<^verbatim>\<open>key in x\<close> for a string \<open>key\<close>: key membership on a dictionary, substring
  test on a string, element test on a list; \<^verbatim>\<open>TypeError\<close> ("argument of type ... is
  not iterable") on \<^verbatim>\<open>None\<close>, booleans and numbers.
\<close>

fun py_contains :: "string \<Rightarrow> pyval \<Rightarrow> error + bool" where
  "py_contains k (PDict d) = Inr (map_of d k \<noteq> None)"
| "py_contains k (PStr s) = Inr (sublist k s)"
| "py_contains k (PList xs) = Inr (PStr k \<in> set xs)"
| "py_contains k PNone = Inl TypeError"
| "py_contains k (PBool b) = Inl TypeError"
| "py_contains k (PInt i) = Inl TypeError"
| "py_contains k (PFloat f) = Inl TypeError"

text \<open>
  \<^verbatim>\<open>x[key]\<close> for a string \<open>key\<close>: lookup on a dictionary (\<^verbatim>\<open>KeyError\<close> when the
  key is missing); \<^verbatim>\<open>TypeError\<close> on everything else (string and list indices must be
  integers, the other types are not subscriptable).
\<close>

fun py_getitem :: "pyval \<Rightarrow> string \<Rightarrow> error + pyval" where
  "py_getitem (PDict d) k = (case map_of d k of None \<Rightarrow> Inl KeyError | Some v \<Rightarrow> Inr v)"
| "py_getitem PNone k = Inl TypeError"
| "py_getitem (PBool b) k = Inl TypeError"
| "py_getitem (PInt i) k = Inl TypeError"
| "py_getitem (PFloat f) k = Inl TypeError"
| "py_getitem (PStr s) k = Inl TypeError"
| "py_getitem (PList xs) k = Inl TypeError"

text \<open>\<^verbatim>\<open>len(x)\<close>: defined on strings, lists and dictionaries, \<^verbatim>\<open>TypeError\<close> otherwise.\<close>

fun py_len :: "pyval \<Rightarrow> error + nat" where
  "py_len (PStr s) = Inr (length s)"
| "py_len (PList xs) = Inr (length xs)"
| "py_len (PDict d) = Inr (length d)"
| "py_len PNone = Inl TypeError"
| "py_len (PBool b) = Inl TypeError"
| "py_len (PInt i) = Inl TypeError"
| "py_len (PFloat f) = Inl TypeError"

text \<open>\<^verbatim>\<open>d.get(key)\<close>: the stored value, \<^verbatim>\<open>None\<close> when the key is missing.\<close>

definition dict_get :: "pydict \<Rightarrow> string \<Rightarrow> pyval" where
  "dict_get d k = (case map_of d k of None \<Rightarrow> PNone | Some v \<Rightarrow> v)"

text \<open>
  \<^verbatim>\<open>d[key] = v\<close>: an existing key keeps its position and gets the new value, a new key
  goes to the end. This is \<^const>\<open>AList.update\<close>.
\<close>

definition dict_set :: "pydict \<Rightarrow> string \<Rightarrow> pyval \<Rightarrow> pydict" where
  "dict_set d k v = AList.update k v d"

section \<open>Float arithmetic\<close>

text \<open>
  A Python float is an IEEE 754 binary64 number, and \<^verbatim>\<open>+\<close>, \<^verbatim>\<open>-\<close> and \<^verbatim>\<open>*\<close> on
  floats return the exact result rounded to the nearest binary64 number, ties to the
  one with the even significand; they raise nothing (a result too large is an
  infinity). A float literal is the decimal it spells, rounded the same way.

  \<open>ilog2 x\<close> is the binary exponent of a positive rational: the \<open>k\<close> with
  \<open>2\<^sup>k \<le> x < 2\<^sup>k\<^sup>+\<^sup>1\<close>, found from the bit lengths of numerator and denominator.
  \<open>grid e x\<close> rounds \<open>x\<close> to the nearest multiple of \<open>2\<^sup>e\<^sup>-\<^sup>5\<^sup>2\<close>, the spacing of the
  53-bit significands with exponent \<open>e\<close>. \<open>b64_round\<close> rounds with the exponent of
  its argument, and with the least exponent -1022 below the normal range (the
  subnormal numbers); \<open>fl64\<close> turns a rounded result of magnitude \<open>2\<^sup>1\<^sup>0\<^sup>2\<^sup>4\<close> or more into
  an infinity. The floats are the values \<open>fl64\<close> returns; the operations are
  defined, and the results below hold, for every \<open>Finite x\<close>.
\<close>

definition ilog2 :: "rat \<Rightarrow> int" where
  "ilog2 x =
     (case quotient_of x of
        (p, q) \<Rightarrow> let k = bitlen p - bitlen q in if 2 powi k \<le> x then k else k - 1)"

definition round_half_even :: "rat \<Rightarrow> int" where
  "round_half_even y =
     (let f = \<lfloor>y\<rfloor>; d = y - of_int f
      in if d < 1 / 2 then f else if 1 / 2 < d then f + 1 else if even f then f else f + 1)"

definition grid :: "int \<Rightarrow> rat \<Rightarrow> rat" where
  "grid e x = of_int (round_half_even (x / 2 powi (e - 52))) * 2 powi (e - 52)"

definition b64_round :: "rat \<Rightarrow> rat" where
  "b64_round x = (if x = 0 then 0 else grid (max (ilog2 \<bar>x\<bar>) (- 1022)) x)"

definition fl64 :: "rat \<Rightarrow> pyfloat" where
  "fl64 x =
     (let r = b64_round x
      in if 2 ^ 1024 \<le> r then PosInf else if r \<le> - (2 ^ 1024) then NegInf else Finite r)"

fun fneg :: "pyfloat \<Rightarrow> pyfloat" where
  "fneg (Finite x) = Finite (- x)"
| "fneg PosInf = NegInf"
| "fneg NegInf = PosInf"
| "fneg NaN = NaN"

fun fadd :: "pyfloat \<Rightarrow> pyfloat \<Rightarrow> pyfloat" where
  "fadd (Finite x) (Finite y) = fl64 (x + y)"
| "fadd NaN b = NaN"
| "fadd a NaN = NaN"
| "fadd PosInf NegInf = NaN"
| "fadd NegInf PosInf = NaN"
| "fadd PosInf b = PosInf"
| "fadd NegInf b = NegInf"
| "fadd a PosInf = PosInf"
| "fadd a NegInf = NegInf"

definition fsub :: "pyfloat \<Rightarrow> pyfloat \<Rightarrow> pyfloat" where
  "fsub a b = fadd a (fneg b)"

fun fmul :: "pyfloat \<Rightarrow> pyfloat \<Rightarrow> pyfloat" where
  "fmul (Finite x) (Finite y) = fl64 (x * y)"
| "fmul NaN b = NaN"
| "fmul a NaN = NaN"
| "fmul (Finite x) PosInf = (if x = 0 then NaN else if 0 < x then PosInf else NegInf)"
| "fmul (Finite x) NegInf = (if x = 0 then NaN else if 0 < x then NegInf else PosInf)"
| "fmul PosInf (Finite y) = (if y = 0 then NaN else if 0 < y then PosInf else NegInf)"
| "fmul NegInf (Finite y) = (if y = 0 then NaN else if 0 < y then NegInf else PosInf)"
| "fmul PosInf PosInf = PosInf"
| "fmul PosInf NegInf = NegInf"
| "fmul NegInf PosInf = NegInf"
| "fmul NegInf NegInf = PosInf"

text \<open>\<^verbatim>\<open>a <= b\<close> on floats: false when either side is NaN.\<close>

fun fle :: "pyfloat \<Rightarrow> pyfloat \<Rightarrow> bool" where
  "fle (Finite x) (Finite y) = (x \<le> y)"
| "fle NaN b = False"
| "fle a NaN = False"
| "fle NegInf b = True"
| "fle a PosInf = True"
| "fle PosInf b = False"
| "fle a NegInf = False"

section \<open>UserManager\<close>

text \<open>
  \<^verbatim>\<open>
  GLOBAL_CONFIG = {"api_key": "sk-123456789", "endpoint": "https://api.example.com",
                   "timeout": 30}

  class UserManager:
      def __init__(self):
          self.users: List[Dict[str, Any]] = []
          self.config = GLOBAL_CONFIG
  \<close>
\<close>

definition GLOBAL_CONFIG :: pydict where
  "GLOBAL_CONFIG =
     [(''api_key'', PStr ''sk-123456789''),
      (''endpoint'', PStr ''https://api.example.com''),
      (''timeout'', PInt 30)]"

record user_manager =
  users :: "pydict list"
  config :: pydict

definition new_user_manager :: user_manager where
  "new_user_manager = \<lparr>users = [], config = GLOBAL_CONFIG\<rparr>"

text \<open>
  \<^verbatim>\<open>
  def add_user(self, u: Dict[str, Any] | None):
      if u:
          self.users.append(u)
  \<close>
  The method has no \<^verbatim>\<open>raise\<close>; it returns \<^verbatim>\<open>None\<close> on every path. The model returns
  the manager after the call.
\<close>

definition add_user :: "user_manager \<Rightarrow> pydict option \<Rightarrow> error + user_manager" where
  "add_user self u =
     (case u of
        None \<Rightarrow> Inr self
      | Some d \<Rightarrow> if d \<noteq> [] then Inr (self\<lparr>users := users self @ [d]\<rparr>) else Inr self)"

text \<open>
  \<^verbatim>\<open>
  def update_user_age(self, username: str, age):
      for user in self.users:
          if user.get("username") == username:
              user["age"] = age  # No bounds/type check
              return True
      return False
  \<close>
  The loop over \<^verbatim>\<open>self.users\<close> is a recursion over the list; it returns the method's
  result together with the list after the call. \<open>age\<close> is not annotated in the source,
  so it is any value. Each entry of the list is a dictionary object of its own, as the
  records that \<^verbatim>\<open>main\<close> registers from the parsed file are.
\<close>

fun update_user_age_loop :: "pydict list \<Rightarrow> string \<Rightarrow> pyval \<Rightarrow> bool \<times> pydict list" where
  "update_user_age_loop [] username age = (False, [])"
| "update_user_age_loop (user # rest) username age =
     (if dict_get user ''username'' = PStr username
      then (True, dict_set user ''age'' age # rest)
      else (case update_user_age_loop rest username age of
              (r, rest') \<Rightarrow> (r, user # rest')))"

definition update_user_age ::
  "user_manager \<Rightarrow> string \<Rightarrow> pyval \<Rightarrow> error + (bool \<times> user_manager)" where
  "update_user_age self username age =
     (case update_user_age_loop (users self) username age of
        (r, us) \<Rightarrow> Inr (r, self\<lparr>users := us\<rparr>))"

section \<open>process\_user\_data\<close>

text \<open>
  \<^verbatim>\<open>
  def process_user_data(data: List[Dict[str, Any]]) -> List[Dict[str, Any]]:
      result = []
      for item in data:
          if item:
              if "user" in item:
                  if item["user"]:
                      if "active" in item["user"]:
                          if item["user"]["active"]:
                              if "permissions" in item["user"]:
                                  if len(item["user"]["permissions"]) > 0:
                                      result.append(item)
      return result
  \<close>
  \<open>item_selected\<close> is the nest of conditions for one item, in the source's order; each
  operation that can raise is a case distinction on its outcome. \<open>process_loop\<close> is the
  \<^verbatim>\<open>for\<close> loop with its accumulator \<open>result\<close>: an exception ends the call at once.
\<close>

definition item_selected :: "pydict \<Rightarrow> error + bool" where
  "item_selected item =
     (if item \<noteq> [] then
        (case map_of item ''user'' of
           None \<Rightarrow> Inr False
         | Some u \<Rightarrow>
             if truthy u then
               (case py_contains ''active'' u of
                  Inl e \<Rightarrow> Inl e
                | Inr False \<Rightarrow> Inr False
                | Inr True \<Rightarrow>
                    (case py_getitem u ''active'' of
                       Inl e \<Rightarrow> Inl e
                     | Inr a \<Rightarrow>
                         if truthy a then
                           (case py_contains ''permissions'' u of
                              Inl e \<Rightarrow> Inl e
                            | Inr False \<Rightarrow> Inr False
                            | Inr True \<Rightarrow>
                                (case py_getitem u ''permissions'' of
                                   Inl e \<Rightarrow> Inl e
                                 | Inr p \<Rightarrow>
                                     (case py_len p of
                                        Inl e \<Rightarrow> Inl e
                                      | Inr n \<Rightarrow> Inr (n > 0))))
                         else Inr False))
             else Inr False)
      else Inr False)"

fun process_loop :: "pydict list \<Rightarrow> pydict list \<Rightarrow> error + pydict list" where
  "process_loop [] result = Inr result"
| "process_loop (item # rest) result =
     (case item_selected item of
        Inl e \<Rightarrow> Inl e
      | Inr True \<Rightarrow> process_loop rest (result @ [item])
      | Inr False \<Rightarrow> process_loop rest result)"

definition process_user_data :: "pydict list \<Rightarrow> error + pydict list" where
  "process_user_data data = process_loop data []"

text \<open>
  The selection the claim describes, read off the data alone: the item is non-empty,
  has a non-empty \<^verbatim>\<open>"user"\<close> mapping with a truthy \<^verbatim>\<open>"active"\<close> entry and a
  \<^verbatim>\<open>"permissions"\<close> entry that is a non-empty string, list or dictionary.
\<close>

fun nonempty_sized :: "pyval \<Rightarrow> bool" where
  "nonempty_sized (PStr s) = (s \<noteq> [])"
| "nonempty_sized (PList xs) = (xs \<noteq> [])"
| "nonempty_sized (PDict d) = (d \<noteq> [])"
| "nonempty_sized PNone = False"
| "nonempty_sized (PBool b) = False"
| "nonempty_sized (PInt i) = False"
| "nonempty_sized (PFloat f) = False"

definition user_accepted :: "pydict \<Rightarrow> bool" where
  "user_accepted u =
     (u \<noteq> []
      \<and> (case map_of u ''active'' of None \<Rightarrow> False | Some a \<Rightarrow> truthy a)
      \<and> (case map_of u ''permissions'' of None \<Rightarrow> False | Some p \<Rightarrow> nonempty_sized p))"

definition accepted :: "pydict \<Rightarrow> bool" where
  "accepted item =
     (item \<noteq> []
      \<and> (case map_of item ''user'' of
            Some (PDict u) \<Rightarrow> user_accepted u
          | _ \<Rightarrow> False))"

text \<open>
  The items on which the nest of conditions raises \<^verbatim>\<open>TypeError\<close>, read off the data
  alone: the \<^verbatim>\<open>"user"\<close> value is truthy and
  \<^item> is a boolean or a number (\<^verbatim>\<open>"active" in x\<close> is not defined), or
  \<^item> is a string or a list that contains \<^verbatim>\<open>"active"\<close> (\<^verbatim>\<open>x["active"]\<close> is not
    defined), or
  \<^item> is a dictionary with a truthy \<^verbatim>\<open>"active"\<close> entry whose \<^verbatim>\<open>"permissions"\<close> entry
    is \<^verbatim>\<open>None\<close>, a boolean or a number (\<^verbatim>\<open>len\<close> is not defined).
\<close>

fun unsized :: "pyval \<Rightarrow> bool" where
  "unsized (PStr s) = False"
| "unsized (PList xs) = False"
| "unsized (PDict d) = False"
| "unsized PNone = True"
| "unsized (PBool b) = True"
| "unsized (PInt i) = True"
| "unsized (PFloat f) = True"

fun user_ill_typed :: "pyval \<Rightarrow> bool" where
  "user_ill_typed PNone = False"
| "user_ill_typed (PBool b) = b"
| "user_ill_typed (PInt i) = (i \<noteq> 0)"
| "user_ill_typed (PFloat f) = (f \<noteq> Finite 0)"
| "user_ill_typed (PStr s) = sublist ''active'' s"
| "user_ill_typed (PList xs) = (PStr ''active'' \<in> set xs)"
| "user_ill_typed (PDict u) =
     ((case map_of u ''active'' of None \<Rightarrow> False | Some a \<Rightarrow> truthy a)
      \<and> (case map_of u ''permissions'' of None \<Rightarrow> False | Some p \<Rightarrow> unsized p))"

definition ill_typed :: "pydict \<Rightarrow> bool" where
  "ill_typed item = (case map_of item ''user'' of None \<Rightarrow> False | Some u \<Rightarrow> user_ill_typed u)"

section \<open>OrderManager.total\_with\_tax\_and\_discount\<close>

text \<open>
  \<^verbatim>\<open>
  class OrderManager:
      TAX = 0.0825  # magic number
      DISCOUNT_VIP = 0.2  # magic number
      DISCOUNT_REGULAR = 0.1  # magic number

      # Floating math for money; no Decimal; magic rates
      def total_with_tax_and_discount(self, subtotal: float, user_type: int) -> float:
          if user_type == 1:
              discount = self.DISCOUNT_REGULAR
          elif user_type == 2:
              discount = self.DISCOUNT_VIP
          else:
              discount = 0.0
          return (subtotal * (1 - discount)) * (1 + self.TAX)
  \<close>
  The integer 1 of \<^verbatim>\<open>1 - discount\<close> and \<^verbatim>\<open>1 + self.TAX\<close> is converted to the float
  1.0. The method reads nothing of \<^verbatim>\<open>self\<close> but the three class constants, has no
  \<^verbatim>\<open>raise\<close>, and float arithmetic raises nothing: every call returns.
\<close>

definition TAX :: pyfloat where
  "TAX = fl64 (825 / 10000)"

definition DISCOUNT_VIP :: pyfloat where
  "DISCOUNT_VIP = fl64 (2 / 10)"

definition DISCOUNT_REGULAR :: pyfloat where
  "DISCOUNT_REGULAR = fl64 (1 / 10)"

definition total_with_tax_and_discount :: "pyfloat \<Rightarrow> int \<Rightarrow> error + pyfloat" where
  "total_with_tax_and_discount subtotal user_type =
     (let discount =
        (if user_type = 1 then DISCOUNT_REGULAR
         else if user_type = 2 then DISCOUNT_VIP
         else Finite 0)
      in Inr (fmul (fmul subtotal (fsub (Finite 1) discount)) (fadd (Finite 1) TAX)))"

text \<open>
  The specification's side. Its tiers are Regular, VIP and None with the discount
  rates 0.10, 0.20 and 0.0, and its tax rate is 0.0825. The method takes the tier as
  an integer: 1 selects the Regular rate, 2 the VIP rate, and every other integer the
  rate of tier None. Rounding half-up to the minor unit of the currency is rounding
  to a whole number of hundredths.
\<close>

datatype tier = Regular | VIP | NoTier

definition tier_of :: "int \<Rightarrow> tier" where
  "tier_of user_type = (if user_type = 1 then Regular else if user_type = 2 then VIP else NoTier)"

definition half_up_cents :: "rat \<Rightarrow> rat" where
  "half_up_cents x = of_int \<lfloor>x * 100 + 1 / 2\<rfloor> / 100"

text \<open>
  The total the specification states, \<open>s * (1 - discountRate(t)) * (1 + TAX_RATE)\<close>,
  as the exact decimal product.
\<close>

fun discount_decimal :: "tier \<Rightarrow> rat" where
  "discount_decimal Regular = 10 / 100"
| "discount_decimal VIP = 20 / 100"
| "discount_decimal NoTier = 0"

definition exact_total :: "rat \<Rightarrow> tier \<Rightarrow> rat" where
  "exact_total s t = s * (1 - discount_decimal t) * (1 + 825 / 10000)"

section \<open>OrderManager.create\_order\<close>

text \<open>
  \<^verbatim>\<open>
  class OrderManager:
      def __init__(self, db_path: str = ":memory:"):
          self.db_path = db_path

      def create_order(self, username: str, amount: float) -> None:
          conn = sqlite3.connect(self.db_path)
          cur = conn.cursor()
          cur.execute(
              f"INSERT INTO orders(user, amount) VALUES ('{username}', {amount})"
          )
          conn.commit()
          conn.close()
  \<close>
  What the method hands to \<^verbatim>\<open>cur.execute\<close> is one argument, the statement text; the
  sequence of bound parameters (the optional second argument) is absent, that is
  empty. The text is the f-string: the two fixed pieces of text around
  \<^verbatim>\<open>username\<close> between single quotes and around the formatted \<^verbatim>\<open>amount\<close>. How
  Python prints a float (\<^verbatim>\<open>format(amount, "")\<close>) is not part of the repository; it is
  the parameter \<open>fmt\<close>.
\<close>

record execute_call =
  sql :: string
  parameters :: "pyval list"

definition create_order_sql :: "(pyfloat \<Rightarrow> string) \<Rightarrow> string \<Rightarrow> pyfloat \<Rightarrow> string" where
  "create_order_sql fmt username amount =
     ''INSERT INTO orders(user, amount) VALUES ('' @ [CHR 0x27] @ username @ [CHR 0x27]
       @ '', '' @ fmt amount @ '')''"

definition create_order_execute ::
  "(pyfloat \<Rightarrow> string) \<Rightarrow> string \<Rightarrow> pyfloat \<Rightarrow> execute_call" where
  "create_order_execute fmt username amount =
     \<lparr>sql = create_order_sql fmt username amount, parameters = []\<rparr>"

text \<open>
  The sibling \<^verbatim>\<open>UserManager._find_user_safe\<close>, "left here for contrast", returns the
  pair of a fixed text and the bound parameters:
  \<^verbatim>\<open>return ("SELECT * FROM users WHERE username = ?", (username,))\<close>
\<close>

definition find_user_safe :: "string \<Rightarrow> execute_call" where
  "find_user_safe username =
     \<lparr>sql = ''SELECT * FROM users WHERE username = ?'', parameters = [PStr username]\<rparr>"

section \<open>init\_db\<close>

text \<open>
  \<^verbatim>\<open>
  def init_db(db_path: str = ":memory:"):
      # No context manager; unsafe schema; no IF NOT EXISTS
      conn = sqlite3.connect(db_path)
      cur = conn.cursor()
      cur.execute("CREATE TABLE orders(user TEXT, amount REAL)")
      conn.commit()
      conn.close()
  \<close>
  A database is the map from its tables' names to their column declarations; the
  backing store maps a path to the database file there. SQLite's
  \<^verbatim>\<open>CREATE TABLE\<close> without \<^verbatim>\<open>IF NOT EXISTS\<close> fails when a table of that name exists
  (\<^verbatim>\<open>sqlite3.OperationalError: table orders already exists\<close>) and creates it
  otherwise. \<^verbatim>\<open>sqlite3.connect\<close> opens the file at the path, creating an empty database
  when there is none; the path \<^verbatim>\<open>":memory:"\<close> opens a fresh private database that is
  gone when the connection closes. The result is the call's outcome (\<open>Inr ()\<close> for
  the return of \<^verbatim>\<open>None\<close>) and the store after the call.
\<close>

type_synonym database = "string \<rightharpoonup> (string \<times> string) list"

type_synonym store = "string \<rightharpoonup> database"

definition connect :: "string \<Rightarrow> store \<Rightarrow> database" where
  "connect db_path st =
     (if db_path = '':memory:'' then Map.empty
      else (case st db_path of None \<Rightarrow> Map.empty | Some db \<Rightarrow> db))"

definition execute_create_orders :: "database \<Rightarrow> error + database" where
  "execute_create_orders db =
     (case db ''orders'' of
        Some cols \<Rightarrow> Inl OperationalError
      | None \<Rightarrow> Inr (db(''orders'' \<mapsto> [(''user'', ''TEXT''), (''amount'', ''REAL'')])))"

definition init_db :: "string \<Rightarrow> store \<Rightarrow> (error + unit) \<times> store" where
  "init_db db_path st =
     (case execute_create_orders (connect db_path st) of
        Inl e \<Rightarrow> (Inl e, st)
      | Inr db \<Rightarrow> (Inr (), if db_path = '':memory:'' then st else st(db_path \<mapsto> db)))"

section \<open>increment\_shared\_counter\<close>

text \<open>
  \<^verbatim>\<open>
  SHARED_COUNTER = 0

  def increment_shared_counter(n: int = 1000):
      # Race condition: SHARED_COUNTER is modified from multiple threads without locks
      global SHARED_COUNTER
      for _ in range(n):
          SHARED_COUNTER += 1

  threads = [threading.Thread(target=increment_shared_counter, args=(10000,))
             for _ in range(4)]
  for t in threads: t.start()
  for t in threads: t.join()
  \<close>
  \<^verbatim>\<open>SHARED_COUNTER += 1\<close> on a global is a read of the global, an addition on the
  thread's own stack and a write of the global; no lock is held between the read and
  the write, so another thread can run between them. A worker is the number of
  iterations it still has to do and the value it has read and not yet written back,
  if any. A schedule is the list of the workers' indices in the order in which they
  take a step.
\<close>

record worker =
  remaining :: nat
  loaded :: "int option"

record threads_state =
  SHARED_COUNTER :: int
  workers :: "worker list"

definition worker_step :: "int \<Rightarrow> worker \<Rightarrow> int \<times> worker" where
  "worker_step c w =
     (case loaded w of
        None \<Rightarrow> if remaining w = 0 then (c, w) else (c, w\<lparr>loaded := Some c\<rparr>)
      | Some v \<Rightarrow> (v + 1, \<lparr>remaining = remaining w - 1, loaded = None\<rparr>))"

definition step :: "nat \<Rightarrow> threads_state \<Rightarrow> threads_state" where
  "step i s =
     (if i < length (workers s)
      then (case worker_step (SHARED_COUNTER s) (workers s ! i) of
              (c, w) \<Rightarrow> \<lparr>SHARED_COUNTER = c, workers = (workers s)[i := w]\<rparr>)
      else s)"

fun run :: "nat list \<Rightarrow> threads_state \<Rightarrow> threads_state" where
  "run [] s = s"
| "run (i # schedule) s = run schedule (step i s)"

definition start_threads :: "int \<Rightarrow> nat list \<Rightarrow> threads_state" where
  "start_threads c ns =
     \<lparr>SHARED_COUNTER = c, workers = map (\<lambda>n. \<lparr>remaining = n, loaded = None\<rparr>) ns\<rparr>"

definition all_joined :: "threads_state \<Rightarrow> bool" where
  "all_joined s = list_all (\<lambda>w. remaining w = 0 \<and> loaded w = None) (workers s)"

section \<open>Results: float arithmetic\<close>

lemma bitlen_powi_bounds:
  assumes "0 < p"
  shows "(2::rat) powi (bitlen p - 1) \<le> of_int p" and "of_int p < (2::rat) powi (bitlen p)"
proof -
  have b: "2 ^ nat (bitlen p - 1) \<le> p" "p < 2 ^ nat (bitlen p)"
    using bitlen_bounds [OF assms] by auto
  have pos: "1 \<le> bitlen p" using assms by (smt (verit) bitlen_nonneg b power_0 nat_0_iff zless_nat_conj)
  have "(2::rat) powi (bitlen p - 1) = of_int (2 ^ nat (bitlen p - 1))"
    using pos by (simp add: power_int_def)
  also have "\<dots> \<le> of_int p" using b(1) by (simp only: of_int_le_iff)
  finally show "(2::rat) powi (bitlen p - 1) \<le> of_int p" .
  have "(of_int p :: rat) < of_int (2 ^ nat (bitlen p))" using b(2) by (simp only: of_int_less_iff)
  also have "\<dots> = 2 powi (bitlen p)" using pos by (simp add: power_int_def)
  finally show "of_int p < (2::rat) powi (bitlen p)" .
qed

lemma ilog2_bounds:
  assumes "0 < x"
  shows "2 powi (ilog2 x) \<le> x" and "x < 2 powi (ilog2 x + 1)"
proof -
  obtain p q where pq: "quotient_of x = (p, q)" by (cases "quotient_of x")
  have q: "0 < q" using quotient_of_denom_pos [OF pq] .
  have x: "x = of_int p / of_int q" using quotient_of_div [OF pq] .
  have p: "0 < p" using assms q x by (simp add: zero_less_divide_iff)
  define k where "k = bitlen p - bitlen q"
  have il: "ilog2 x = (if 2 powi k \<le> x then k else k - 1)"
    by (simp add: ilog2_def pq k_def Let_def)
  note bp = bitlen_powi_bounds [OF p] and bq = bitlen_powi_bounds [OF q]
  have qpos: "(0::rat) < of_int q" using q by simp
  have up: "x < 2 powi (k + 1)"
  proof -
    have "x < 2 powi (bitlen p) / of_int q"
      unfolding x using bp(2) qpos by (simp add: divide_strict_right_mono)
    also have "\<dots> \<le> 2 powi (bitlen p) / 2 powi (bitlen q - 1)"
      using bq(1) qpos by (intro divide_left_mono) (auto intro!: mult_pos_pos zero_less_power_int)
    also have "\<dots> = 2 powi (k + 1)"
      by (simp add: k_def power_int_diff [symmetric] algebra_simps)
    finally show ?thesis .
  qed
  have lo: "2 powi (k - 1) \<le> x"
  proof -
    have "(2::rat) powi (k - 1) = 2 powi (bitlen p - 1) / 2 powi (bitlen q)"
      by (simp add: k_def power_int_diff [symmetric] algebra_simps)
    also have "\<dots> \<le> of_int p / 2 powi (bitlen q)"
      using bp(1) by (intro divide_right_mono) auto
    also have "\<dots> \<le> of_int p / of_int q"
      using bq(2) p qpos by (intro divide_left_mono) (auto intro!: mult_pos_pos zero_less_power_int)
    finally show ?thesis by (simp add: x)
  qed
  show "2 powi (ilog2 x) \<le> x" using lo by (simp add: il)
  show "x < 2 powi (ilog2 x + 1)" using up by (auto simp: il)
qed

lemma round_half_even_of_int: "round_half_even (of_int n) = n"
  by (simp add: round_half_even_def)

lemma round_half_even_bounds:
  "\<lfloor>y\<rfloor> \<le> round_half_even y" "round_half_even y \<le> \<lfloor>y\<rfloor> + 1"
  by (simp_all add: round_half_even_def Let_def)

lemma round_half_even_mono:
  assumes "y \<le> z"
  shows "round_half_even y \<le> round_half_even z"
proof (cases "\<lfloor>y\<rfloor> = \<lfloor>z\<rfloor>")
  case True
  then show ?thesis using assms by (auto simp: round_half_even_def Let_def)
next
  case False
  then have lt: "\<lfloor>y\<rfloor> + 1 \<le> \<lfloor>z\<rfloor>" using floor_mono [OF assms] by linarith
  show ?thesis using round_half_even_bounds(2) [of y] round_half_even_bounds(1) [of z] lt
    by linarith
qed

lemma b64_round_grid: "x \<noteq> 0 \<Longrightarrow> b64_round x = grid (max (ilog2 \<bar>x\<bar>) (- 1022)) x"
  by (simp add: b64_round_def)

lemma grid_mono: "x \<le> y \<Longrightarrow> grid e x \<le> grid e y"
  unfolding grid_def
  by (intro mult_right_mono round_half_even_mono divide_right_mono)
     (auto simp: round_half_even_mono divide_right_mono less_imp_le zero_less_power_int)

lemma powi_split: "(2::rat) powi (e + 1) = 2 ^ 53 * 2 powi (e - 52)"
proof -
  have "e + 1 = 53 + (e - 52)" by simp
  then have "(2::rat) powi (e + 1) = 2 powi (53 + (e - 52))" by (rule arg_cong)
  also have "\<dots> = 2 powi 53 * 2 powi (e - 52)" by (subst power_int_add) auto
  finally show ?thesis by simp
qed

lemma powi_split': "(2::rat) powi e = 2 ^ 52 * 2 powi (e - 52)"
proof -
  have "e = 52 + (e - 52)" by simp
  then have "(2::rat) powi e = 2 powi (52 + (e - 52))" by (rule arg_cong)
  also have "\<dots> = 2 powi 52 * 2 powi (e - 52)" by (subst power_int_add) auto
  finally show ?thesis by simp
qed

lemma grid_upper:
  assumes "x \<le> 2 powi (e + 1)"
  shows "grid e x \<le> 2 powi (e + 1)"
proof -
  have u: "(0::rat) < 2 powi (e - 52)" by (simp add: zero_less_power_int)
  have "x / 2 powi (e - 52) \<le> of_int (2 ^ 53)"
    using assms u by (simp add: powi_split pos_divide_le_eq)
  then have "round_half_even (x / 2 powi (e - 52)) \<le> 2 ^ 53"
    using round_half_even_mono round_half_even_of_int by metis
  then have "(of_int (round_half_even (x / 2 powi (e - 52))) :: rat) \<le> of_int (2 ^ 53)"
    by (simp only: of_int_le_iff)
  then show ?thesis
    unfolding grid_def powi_split using u by (simp add: mult_right_mono)
qed

lemma grid_lower:
  assumes "2 powi e \<le> y"
  shows "2 powi e \<le> grid e y"
proof -
  have u: "(0::rat) < 2 powi (e - 52)" by (simp add: zero_less_power_int)
  have "of_int (2 ^ 52) \<le> y / 2 powi (e - 52)"
    using assms u by (simp add: powi_split' [of e] pos_le_divide_eq)
  then have "2 ^ 52 \<le> round_half_even (y / 2 powi (e - 52))"
    using round_half_even_mono round_half_even_of_int by metis
  then have "(of_int (2 ^ 52) :: rat) \<le> of_int (round_half_even (y / 2 powi (e - 52)))"
    by (simp only: of_int_le_iff)
  then show ?thesis
    unfolding grid_def using u by (subst powi_split') (simp add: mult_right_mono)
qed

lemma grid_nonneg: "0 \<le> x \<Longrightarrow> 0 \<le> grid e x"
  using grid_mono [of 0 x e] by (simp add: grid_def round_half_even_def)

lemma powi_mono: "a \<le> b \<Longrightarrow> (2::rat) powi a \<le> 2 powi b"
  by (rule power_int_increasing) simp_all

lemma ilog2_mono:
  assumes "0 < x" "x \<le> y"
  shows "ilog2 x \<le> ilog2 y"
proof (rule ccontr)
  assume "\<not> ilog2 x \<le> ilog2 y"
  then have "ilog2 y + 1 \<le> ilog2 x" by simp
  then have "(2::rat) powi (ilog2 y + 1) \<le> 2 powi (ilog2 x)" by (rule powi_mono)
  moreover have "(2::rat) powi (ilog2 x) < 2 powi (ilog2 y + 1)"
    using ilog2_bounds(1) [OF assms(1)] ilog2_bounds(2) [of y] assms by linarith
  ultimately show False by simp
qed

lemma b64_round_mono_pos:
  assumes "0 < x" "x \<le> y"
  shows "b64_round x \<le> b64_round y"
proof -
  define ex where "ex = max (ilog2 x) (- 1022)"
  define ey where "ey = max (ilog2 y) (- 1022)"
  have y: "0 < y" using assms by simp
  have rx: "b64_round x = grid ex x" using assms(1) by (simp add: b64_round_grid ex_def)
  have ry: "b64_round y = grid ey y" using y by (simp add: b64_round_grid ey_def)
  have le: "ex \<le> ey" using ilog2_mono [OF assms] by (simp add: ex_def ey_def)
  show ?thesis
  proof (cases "ex = ey")
    case True
    then show ?thesis using grid_mono [OF assms(2)] by (simp add: rx ry)
  next
    case False
    then have lt: "ex + 1 \<le> ey" using le by simp
    then have ey_eq: "ey = ilog2 y" by (simp add: ex_def ey_def max_def split: if_splits)
    have "x \<le> 2 powi (ilog2 x + 1)" using ilog2_bounds(2) [OF assms(1)] by simp
    also have "\<dots> \<le> 2 powi (ex + 1)" by (rule powi_mono) (simp add: ex_def)
    finally have "grid ex x \<le> 2 powi (ex + 1)" by (rule grid_upper)
    also have "\<dots> \<le> 2 powi ey" using lt by (rule powi_mono)
    also have "\<dots> \<le> grid ey y"
      using ilog2_bounds(1) [OF y] by (intro grid_lower) (simp add: ey_eq)
    finally show ?thesis by (simp add: rx ry)
  qed
qed

lemma b64_round_nonneg:
  assumes "0 \<le> x"
  shows "0 \<le> b64_round x"
proof (cases "x = 0")
  case True
  then show ?thesis by (simp add: b64_round_def)
next
  case False
  then have "b64_round x = grid (max (ilog2 \<bar>x\<bar>) (- 1022)) x" by (rule b64_round_grid)
  then show ?thesis using grid_nonneg [OF assms] by simp
qed

lemma b64_round_mono_nonneg:
  assumes "0 \<le> x" "x \<le> y"
  shows "b64_round x \<le> b64_round y"
proof (cases "x = 0")
  case True
  then show ?thesis using b64_round_nonneg [of y] assms by (simp add: b64_round_def)
next
  case False
  then show ?thesis using assms by (intro b64_round_mono_pos) simp_all
qed

lemma fl64_nonneg: "0 \<le> x \<Longrightarrow> fle (Finite 0) (fl64 x)"
  using b64_round_nonneg [of x] by (simp add: fl64_def Let_def)

lemma fl64_mono_nonneg: "0 \<le> x \<Longrightarrow> x \<le> y \<Longrightarrow> fle (fl64 x) (fl64 y)"
  using b64_round_mono_nonneg [of x y] b64_round_nonneg [of x]
  by (simp add: fl64_def Let_def)

lemma fle_fl64_PosInf: "fle (fl64 x) PosInf"
  by (simp add: fl64_def Let_def)

lemma fmul_nonneg:
  "fle (Finite 0) u \<Longrightarrow> 0 < t \<Longrightarrow> fle (Finite 0) (fmul u (Finite t))"
  by (cases u) (simp_all add: fl64_nonneg)

lemma fmul_mono_left:
  "fle (Finite 0) u \<Longrightarrow> fle u v \<Longrightarrow> 0 < t \<Longrightarrow> fle (fmul u (Finite t)) (fmul v (Finite t))"
  by (cases u; cases v) (simp_all add: fl64_mono_nonneg mult_right_mono fle_fl64_PosInf)

lemma fmul_mono_right:
  "fle (Finite 0) s \<Longrightarrow> 0 < a \<Longrightarrow> a \<le> b \<Longrightarrow> fle (fmul s (Finite a)) (fmul s (Finite b))"
  by (cases s) (simp_all add: fl64_mono_nonneg mult_left_mono)

section \<open>Results: OrderManager.total\_with\_tax\_and\_discount\<close>

text \<open>
  Evaluation: the rounding of a concrete rational is computed with the code equations,
  the comparison with \<open>2\<^sup>1\<^sup>0\<^sup>2\<^sup>4\<close> by the simplifier.
\<close>

lemma fl64_Finite:
  "b64_round x = r \<Longrightarrow> r < 2 ^ 1024 \<Longrightarrow> - (2 ^ 1024) < r \<Longrightarrow> fl64 x = Finite r"
  by (simp add: fl64_def Let_def)

lemma fadd_Finite:
  "b64_round (x + y) = r \<Longrightarrow> r < 2 ^ 1024 \<Longrightarrow> - (2 ^ 1024) < r \<Longrightarrow>
   fadd (Finite x) (Finite y) = Finite r"
  by (simp add: fl64_Finite)

lemma fsub_Finite:
  "b64_round (x - y) = r \<Longrightarrow> r < 2 ^ 1024 \<Longrightarrow> - (2 ^ 1024) < r \<Longrightarrow>
   fsub (Finite x) (Finite y) = Finite r"
  by (simp add: fsub_def fl64_Finite)

lemma fmul_Finite:
  "b64_round (x * y) = r \<Longrightarrow> r < 2 ^ 1024 \<Longrightarrow> - (2 ^ 1024) < r \<Longrightarrow>
   fmul (Finite x) (Finite y) = Finite r"
  by (simp add: fl64_Finite)

lemma DISCOUNT_REGULAR_eq: "DISCOUNT_REGULAR = Finite (3602879701896397 / 36028797018963968)"
  unfolding DISCOUNT_REGULAR_def by (rule fl64_Finite, code_simp) simp_all

lemma DISCOUNT_VIP_eq: "DISCOUNT_VIP = Finite (3602879701896397 / 18014398509481984)"
  unfolding DISCOUNT_VIP_def by (rule fl64_Finite, code_simp) simp_all

lemma TAX_eq: "TAX = Finite (5944751508129055 / 72057594037927936)"
  unfolding TAX_def by (rule fl64_Finite, code_simp) simp_all

lemma one_minus_regular:
  "fsub (Finite 1) DISCOUNT_REGULAR = Finite (8106479329266893 / 9007199254740992)"
  unfolding DISCOUNT_REGULAR_eq by (rule fsub_Finite, code_simp) simp_all

lemma one_minus_vip:
  "fsub (Finite 1) DISCOUNT_VIP = Finite (3602879701896397 / 4503599627370496)"
  unfolding DISCOUNT_VIP_eq by (rule fsub_Finite, code_simp) simp_all

lemma one_minus_zero: "fsub (Finite 1) (Finite 0) = Finite 1"
  by (rule fsub_Finite, code_simp) simp_all

lemma one_plus_tax: "fadd (Finite 1) TAX = Finite (2437573298314281 / 2251799813685248)"
  unfolding TAX_eq by (rule fadd_Finite, code_simp) simp_all

lemma total_cases:
  "total_with_tax_and_discount s 1
     = Inr (fmul (fmul s (Finite (8106479329266893 / 9007199254740992)))
                 (Finite (2437573298314281 / 2251799813685248)))"
  "total_with_tax_and_discount s 2
     = Inr (fmul (fmul s (Finite (3602879701896397 / 4503599627370496)))
                 (Finite (2437573298314281 / 2251799813685248)))"
  "user_type \<noteq> 1 \<Longrightarrow> user_type \<noteq> 2 \<Longrightarrow>
   total_with_tax_and_discount s user_type
     = Inr (fmul (fmul s (Finite 1)) (Finite (2437573298314281 / 2251799813685248)))"
  by (simp_all add: total_with_tax_and_discount_def one_minus_vip one_minus_regular
      one_minus_zero one_plus_tax)

lemma total_100_regular:
  "total_with_tax_and_discount (Finite 100) 1 = Inr (Finite (6855674901508915 / 70368744177664))"
proof -
  have "fmul (Finite 100) (Finite (8106479329266893 / 9007199254740992)) = Finite 90"
    by (rule fmul_Finite, code_simp) simp_all
  moreover have "fmul (Finite 90) (Finite (2437573298314281 / 2251799813685248))
      = Finite (6855674901508915 / 70368744177664)"
    by (rule fmul_Finite, code_simp) simp_all
  ultimately show ?thesis by (simp only: total_cases)
qed

lemma total_100_vip:
  "total_with_tax_and_discount (Finite 100) 2 = Inr (Finite (3046966622892851 / 35184372088832))"
proof -
  have "fmul (Finite 100) (Finite (3602879701896397 / 4503599627370496)) = Finite 80"
    by (rule fmul_Finite, code_simp) simp_all
  moreover have "fmul (Finite 80) (Finite (2437573298314281 / 2251799813685248))
      = Finite (3046966622892851 / 35184372088832)"
    by (rule fmul_Finite, code_simp) simp_all
  ultimately show ?thesis by (simp only: total_cases)
qed

lemma total_100_other:
  assumes "user_type \<noteq> 1" "user_type \<noteq> 2"
  shows "total_with_tax_and_discount (Finite 100) user_type = Inr (Finite (10825 / 100))"
proof -
  have "fmul (Finite 100) (Finite 1) = Finite 100"
    by (rule fmul_Finite, code_simp) simp_all
  moreover have "fmul (Finite 100) (Finite (2437573298314281 / 2251799813685248))
      = Finite (10825 / 100)"
    by (rule fmul_Finite, code_simp) simp_all
  ultimately show ?thesis by (simp only: total_cases(3) [OF assms])
qed

text \<open>
  Distance to the exact decimal total. Rounding to nearest changes a number in the
  normal range by at most the fraction \<open>2\<^sup>-\<^sup>5\<^sup>3\<close> of itself, so for a subtotal between
  \<open>2\<^sup>-\<^sup>1\<^sup>0\<^sup>0\<^sup>0\<close> and \<open>2\<^sup>1\<^sup>0\<^sup>0\<^sup>0\<close> the float the method returns is finite and within the
  fraction \<open>2\<^sup>-\<^sup>5\<^sup>0\<close> of the exact product.
\<close>

lemma round_half_even_error: "\<bar>of_int (round_half_even y) - y\<bar> \<le> 1 / 2"
proof -
  have "of_int \<lfloor>y\<rfloor> \<le> y" "y < of_int \<lfloor>y\<rfloor> + 1" by linarith+
  then show ?thesis by (auto simp: round_half_even_def Let_def abs_le_iff)
qed

lemma grid_error: "\<bar>grid e x - x\<bar> \<le> 2 powi (e - 52) / 2"
proof -
  let ?u = "(2::rat) powi (e - 52)"
  have u: "0 < ?u" by simp
  have "grid e x - x = (of_int (round_half_even (x / ?u)) - x / ?u) * ?u"
    using u by (simp add: grid_def algebra_simps)
  then have "\<bar>grid e x - x\<bar> = \<bar>of_int (round_half_even (x / ?u)) - x / ?u\<bar> * ?u"
    using u by (simp add: abs_mult)
  also have "\<dots> \<le> (1 / 2) * ?u"
    using u round_half_even_error by (intro mult_right_mono) auto
  finally show ?thesis by simp
qed

lemma b64_round_error:
  assumes "0 < x" "- 1022 \<le> ilog2 x"
  shows "\<bar>b64_round x - x\<bar> \<le> x / 2 ^ 53"
proof -
  have r: "b64_round x = grid (ilog2 x) x"
    using assms by (simp add: b64_round_def max_def)
  have "(2::rat) powi (ilog2 x - 52) / 2 = 2 powi (ilog2 x) / 2 ^ 53"
    by (simp add: powi_split' [of "ilog2 x"])
  also have "\<dots> \<le> x / 2 ^ 53"
    using ilog2_bounds(1) [OF assms(1)] by (simp add: divide_right_mono)
  finally show ?thesis using grid_error [of "ilog2 x" x] by (simp add: r)
qed

lemma ilog2_lower:
  assumes "2 powi k \<le> x"
  shows "k \<le> ilog2 x"
proof (rule ccontr)
  assume "\<not> k \<le> ilog2 x"
  then have "ilog2 x + 1 \<le> k" by simp
  then have "(2::rat) powi (ilog2 x + 1) \<le> 2 powi k" by (rule powi_mono)
  moreover have "0 < x" using assms zero_less_power_int [of "2::rat" k] by linarith
  ultimately show False using ilog2_bounds(2) [of x] assms by linarith
qed

lemma fl64_normal:
  assumes "2 powi (- 1010) \<le> x" "x \<le> 2 ^ 1010"
  shows "\<exists>r. fl64 x = Finite r \<and> x * (1 - 1 / 2 ^ 53) \<le> r \<and> r \<le> x * (1 + 1 / 2 ^ 53)"
proof -
  have pos: "0 < x" using assms(1) zero_less_power_int [of "2::rat" "- 1010"] by linarith
  have "- 1022 \<le> ilog2 x" using ilog2_lower [OF assms(1)] by simp
  then have e: "\<bar>b64_round x - x\<bar> \<le> x / 2 ^ 53" using pos by (intro b64_round_error)
  have eq: "x * (1 - 1 / 2 ^ 53) = x - x / 2 ^ 53" "x * (1 + 1 / 2 ^ 53) = x + x / 2 ^ 53"
    by (simp_all add: algebra_simps)
  have lo: "x * (1 - 1 / 2 ^ 53) \<le> b64_round x" and hi: "b64_round x \<le> x * (1 + 1 / 2 ^ 53)"
    unfolding eq using e by linarith+
  have "x * (1 + 1 / 2 ^ 53) \<le> 2 ^ 1010 * (1 + 1 / 2 ^ 53)"
    using assms(2) by (intro mult_right_mono) simp_all
  also have "\<dots> < (2::rat) ^ 1024" by simp
  finally have "b64_round x < 2 ^ 1024" using hi by linarith
  moreover have "0 \<le> b64_round x" using pos by (intro b64_round_nonneg) simp
  ultimately have "fl64 x = Finite (b64_round x)" by (intro fl64_Finite) simp_all
  then show ?thesis using lo hi by blast
qed

lemma two_products:
  assumes s: "2 powi (- 1000) \<le> s" "s \<le> 2 ^ 1000"
    and a: "1 / 2 \<le> a" "a \<le> 1" and t: "1 \<le> t" "t \<le> 2"
  shows "\<exists>r. fmul (fmul (Finite s) (Finite a)) (Finite t) = Finite r
           \<and> s * (a * t * ((1 - 1 / 2 ^ 53) * (1 - 1 / 2 ^ 53))) \<le> r
           \<and> r \<le> s * (a * t * ((1 + 1 / 2 ^ 53) * (1 + 1 / 2 ^ 53)))"
proof -
  define lo :: rat where "lo = 1 - 1 / 2 ^ 53"
  define hi :: rat where "hi = 1 + 1 / 2 ^ 53"
  have lo: "1 / 2 \<le> lo" "0 \<le> lo" and hi: "hi \<le> 2" "0 \<le> hi"
    by (simp_all add: lo_def hi_def)
  have s': "1 / 2 ^ 1000 \<le> s" using s(1) by simp
  have spos: "0 < s" using s' by (rule less_le_trans [rotated]) simp
  have apos: "0 < a" using a(1) by simp
  have tpos: "0 < t" using t(1) by simp
  have "(1 / 2 ^ 1000) * (1 / 2) \<le> s * a"
    using s' a(1) by (intro mult_mono) simp_all
  moreover have "(1 / 2 ^ 1000) * (1 / 2) = (1 / 2 ^ 1001 :: rat)" by simp
  ultimately have x1_lo: "1 / 2 ^ 1001 \<le> s * a" by simp
  have "s * a \<le> s * 1"
    using a(2) spos by (intro mult_left_mono) simp_all
  then have x1_hi: "s * a \<le> 2 ^ 1000"
    using s(2) by simp
  have x1_pos: "0 \<le> s * a" using spos apos by simp
  have "2 powi (- 1010) \<le> s * a"
  proof -
    have "(2::rat) powi (- 1010) \<le> 2 powi (- 1001)" by (rule powi_mono) simp
    also have "\<dots> = 1 / 2 ^ 1001" by (simp add: power_int_minus_divide)
    finally show ?thesis using x1_lo by simp
  qed
  moreover have "s * a \<le> 2 ^ 1010"
  proof -
    have "(2::rat) ^ 1000 \<le> 2 ^ 1010" by (rule power_increasing) simp_all
    then show ?thesis using x1_hi by (rule order_trans [rotated])
  qed
  ultimately obtain p where p: "fl64 (s * a) = Finite p" "s * a * lo \<le> p" "p \<le> s * a * hi"
    using fl64_normal [of "s * a"] unfolding lo_def hi_def by blast
  have "(1 / 2 ^ 1001) * (1 / 2) \<le> s * a * lo"
    using x1_lo lo(1) by (intro mult_mono) simp_all
  moreover have "(1 / 2 ^ 1001) * (1 / 2) = (1 / 2 ^ 1002 :: rat)" by simp
  ultimately have p_lo: "1 / 2 ^ 1002 \<le> p" using p(2) by simp
  have "s * a * hi \<le> 2 ^ 1000 * 2"
    using x1_hi hi x1_pos by (intro mult_mono) simp_all
  moreover have "(2::rat) ^ 1000 * 2 = 2 ^ 1001" by simp
  ultimately have p_hi: "p \<le> 2 ^ 1001" using p(3) by simp
  have ppos: "0 < p" using p_lo by (rule less_le_trans [rotated]) simp
  have "p \<le> p * t" using t(1) ppos by simp
  then have x2_lo: "1 / 2 ^ 1002 \<le> p * t" using p_lo by (rule order_trans [rotated])
  have "p * t \<le> 2 ^ 1001 * 2"
    using p_hi t(2) ppos tpos by (intro mult_mono) simp_all
  moreover have "(2::rat) ^ 1001 * 2 = 2 ^ 1002" by simp
  ultimately have x2_hi: "p * t \<le> 2 ^ 1002" by simp
  have "2 powi (- 1010) \<le> p * t"
  proof -
    have "(2::rat) powi (- 1010) \<le> 2 powi (- 1002)" by (rule powi_mono) simp
    also have "\<dots> = 1 / 2 ^ 1002" by (simp add: power_int_minus_divide)
    finally show ?thesis using x2_lo by simp
  qed
  moreover have "p * t \<le> 2 ^ 1010"
  proof -
    have "(2::rat) ^ 1002 \<le> 2 ^ 1010" by (rule power_increasing) simp_all
    then show ?thesis using x2_hi by (rule order_trans [rotated])
  qed
  ultimately obtain r where r: "fl64 (p * t) = Finite r" "p * t * lo \<le> r" "r \<le> p * t * hi"
    using fl64_normal [of "p * t"] unfolding lo_def hi_def by blast
  have "s * (a * t * (lo * lo)) = (s * a * lo) * (t * lo)" by (simp add: algebra_simps)
  also have "\<dots> \<le> p * (t * lo)"
    using p(2) tpos lo(2) by (intro mult_right_mono) simp_all
  also have "\<dots> = p * t * lo" by simp
  also have "\<dots> \<le> r" by (rule r(2))
  finally have low: "s * (a * t * (lo * lo)) \<le> r" .
  have "r \<le> p * t * hi" by (rule r(3))
  also have "\<dots> = p * (t * hi)" by simp
  also have "\<dots> \<le> (s * a * hi) * (t * hi)"
    using p(3) tpos hi(2) by (intro mult_right_mono) simp_all
  also have "\<dots> = s * (a * t * (hi * hi))" by (simp add: algebra_simps)
  finally have high: "r \<le> s * (a * t * (hi * hi))" .
  have "fmul (fmul (Finite s) (Finite a)) (Finite t) = Finite r"
    by (simp add: p(1) r(1))
  then show ?thesis using low high unfolding lo_def hi_def by blast
qed

lemma close_from_factors:
  fixes s r c1 c2 e :: rat
  assumes "0 < s" "s * c1 \<le> r" "r \<le> s * c2"
    and "e * (1 - 1 / 2 ^ 50) \<le> c1" "c2 \<le> e * (1 + 1 / 2 ^ 50)"
  shows "\<bar>r - s * e\<bar> \<le> s * e / 2 ^ 50"
proof -
  define d where "d = s * e / 2 ^ 50"
  have "s * e - d = s * (e * (1 - 1 / 2 ^ 50))" by (simp add: d_def algebra_simps)
  also have "\<dots> \<le> s * c1" using assms(1,4) by (intro mult_left_mono) simp_all
  also have "\<dots> \<le> r" by (rule assms(2))
  finally have low: "s * e - d \<le> r" .
  have "r \<le> s * c2" by (rule assms(3))
  also have "\<dots> \<le> s * (e * (1 + 1 / 2 ^ 50))"
    using assms(1,5) by (intro mult_left_mono) simp_all
  also have "\<dots> = s * e + d" by (simp add: d_def algebra_simps)
  finally have high: "r \<le> s * e + d" .
  from low high have "s * e - d \<le> r" "r \<le> s * e + d" .
  then have "\<bar>r - s * e\<bar> \<le> d" by (simp add: abs_le_iff)
  then show ?thesis by (simp only: d_def)
qed

lemma total_close_to_exact:
  assumes s: "2 powi (- 1000) \<le> s" "s \<le> 2 ^ 1000"
  shows "\<exists>r. total_with_tax_and_discount (Finite s) user_type = Inr (Finite r)
           \<and> \<bar>r - exact_total s (tier_of user_type)\<bar> \<le> exact_total s (tier_of user_type) / 2 ^ 50"
proof -
  let ?t = "2437573298314281 / 2251799813685248 :: rat"
  have spos: "0 < s" using s(1) by (rule less_le_trans [rotated]) simp
  have main: "\<exists>r. fmul (fmul (Finite s) (Finite a)) (Finite ?t) = Finite r
       \<and> \<bar>r - s * e\<bar> \<le> s * e / 2 ^ 50"
    if a: "1 / 2 \<le> a" "a \<le> 1"
      and e1: "e * (1 - 1 / 2 ^ 50) \<le> a * ?t * ((1 - 1 / 2 ^ 53) * (1 - 1 / 2 ^ 53))"
      and e2: "a * ?t * ((1 + 1 / 2 ^ 53) * (1 + 1 / 2 ^ 53)) \<le> e * (1 + 1 / 2 ^ 50)"
    for a e
  proof -
    obtain r where r: "fmul (fmul (Finite s) (Finite a)) (Finite ?t) = Finite r"
      "s * (a * ?t * ((1 - 1 / 2 ^ 53) * (1 - 1 / 2 ^ 53))) \<le> r"
      "r \<le> s * (a * ?t * ((1 + 1 / 2 ^ 53) * (1 + 1 / 2 ^ 53)))"
      using two_products [OF s a, of ?t] by auto
    show ?thesis using r(1) close_from_factors [OF spos r(2) r(3) e1 e2] by blast
  qed
  consider "user_type = 1" | "user_type = 2" | "user_type \<noteq> 1" "user_type \<noteq> 2" by blast
  then show ?thesis
  proof cases
    case 1
    have "\<exists>r. fmul (fmul (Finite s) (Finite (8106479329266893 / 9007199254740992))) (Finite ?t) = Finite r
       \<and> \<bar>r - s * ((1 - 10 / 100) * (1 + 825 / 10000))\<bar> \<le> s * ((1 - 10 / 100) * (1 + 825 / 10000)) / 2 ^ 50"
      by (rule main) simp_all
    then show ?thesis using 1 by (simp add: total_cases exact_total_def tier_of_def algebra_simps)
  next
    case 2
    have "\<exists>r. fmul (fmul (Finite s) (Finite (3602879701896397 / 4503599627370496))) (Finite ?t) = Finite r
       \<and> \<bar>r - s * ((1 - 20 / 100) * (1 + 825 / 10000))\<bar> \<le> s * ((1 - 20 / 100) * (1 + 825 / 10000)) / 2 ^ 50"
      by (rule main) simp_all
    then show ?thesis using 2 by (simp add: total_cases exact_total_def tier_of_def algebra_simps)
  next
    case 3
    have "\<exists>r. fmul (fmul (Finite s) (Finite 1)) (Finite ?t) = Finite r
       \<and> \<bar>r - s * ((1 - 0) * (1 + 825 / 10000))\<bar> \<le> s * ((1 - 0) * (1 + 825 / 10000)) / 2 ^ 50"
      by (rule main) simp_all
    then show ?thesis using 3 by (simp add: total_cases exact_total_def tier_of_def algebra_simps)
  qed
qed

text \<open>
  Claim C1 says that the method returns the product
  \<open>s * (1 - discountRate(t)) * (1 + TAX_RATE)\<close> with the rates 0.10, 0.20 and 0.0 and
  the tax rate 0.0825. The method selects these rates (\<open>total_cases\<close>) but computes in
  floats (its own comment: "Floating math for money; no Decimal; magic rates"), and
  what it returns is the product only up to rounding (\<open>total_close_to_exact\<close>). For
  the subtotal 0.01 and the Regular tier the product is 0.0097425; the method returns
  the float 0.009742500000000001, which is neither the product nor the float nearest
  to it, whether the subtotal is read as the decimal 0.01 or as the float it denotes.
\<close>

theorem total_float_drift:
  "fl64 (1 / 100) = Finite (5764607523034235 / 576460752303423488)
   \<and> total_with_tax_and_discount (Finite (5764607523034235 / 576460752303423488)) 1
       = Inr (Finite (702021109914513 / 72057594037927936))
   \<and> exact_total (1 / 100) (tier_of 1) = 3897 / 400000
   \<and> fl64 (exact_total (1 / 100) (tier_of 1)) = Finite (5616168879316103 / 576460752303423488)
   \<and> fl64 (exact_total (5764607523034235 / 576460752303423488) (tier_of 1))
       = Finite (5616168879316103 / 576460752303423488)
   \<and> total_with_tax_and_discount (Finite (5764607523034235 / 576460752303423488)) 1
       \<noteq> Inr (Finite (exact_total (1 / 100) (tier_of 1)))
   \<and> total_with_tax_and_discount (Finite (5764607523034235 / 576460752303423488)) 1
       \<noteq> Inr (fl64 (exact_total (1 / 100) (tier_of 1)))"
proof -
  have lit: "fl64 (1 / 100) = Finite (5764607523034235 / 576460752303423488)"
    by (rule fl64_Finite, code_simp) simp_all
  have m1: "fmul (Finite (5764607523034235 / 576460752303423488))
                 (Finite (8106479329266893 / 9007199254740992))
            = Finite (1297036692682703 / 144115188075855872)"
    by (rule fmul_Finite, code_simp) simp_all
  have m2: "fmul (Finite (1297036692682703 / 144115188075855872))
                 (Finite (2437573298314281 / 2251799813685248))
            = Finite (702021109914513 / 72057594037927936)"
    by (rule fmul_Finite, code_simp) simp_all
  have tot: "total_with_tax_and_discount (Finite (5764607523034235 / 576460752303423488)) 1
       = Inr (Finite (702021109914513 / 72057594037927936))"
    by (simp only: total_cases m1 m2)
  have ex: "exact_total (1 / 100) (tier_of 1) = 3897 / 400000"
    by (simp add: exact_total_def tier_of_def)
  have n1: "fl64 (3897 / 400000) = Finite (5616168879316103 / 576460752303423488)"
    by (rule fl64_Finite, code_simp) simp_all
  have n2: "fl64 (exact_total (5764607523034235 / 576460752303423488) (tier_of 1))
       = Finite (5616168879316103 / 576460752303423488)"
    unfolding exact_total_def tier_of_def by (rule fl64_Finite, code_simp) simp_all
  show ?thesis
    unfolding tot ex n1 n2 lit by simp
qed




text \<open>
  Claim C5: \<^verbatim>\<open>total_with_tax_and_discount(100.0, 2)\<close> returns the float 86.60, and
  86.60 is the exact product 100 \<times> 0.80 \<times> 1.0825 rounded half-up to hundredths, the
  rounding applied once, to the exact product.
\<close>

theorem total_100_vip_is_86_60:
  "total_with_tax_and_discount (Finite 100) 2
     = Inr (fl64 (half_up_cents (100 * (1 - 20 / 100) * (1 + 825 / 10000))))
   \<and> half_up_cents (100 * (1 - 20 / 100) * (1 + 825 / 10000)) = 8660 / 100"
proof -
  have h: "half_up_cents (100 * (1 - 20 / 100) * (1 + 825 / 10000)) = 8660 / 100"
    by code_simp
  have "fl64 (8660 / 100) = Finite (3046966622892851 / 35184372088832)"
    by (rule fl64_Finite, code_simp) simp_all
  then show ?thesis by (simp only: h total_100_vip)
qed

text \<open>
  Claim C9: for every non-negative subtotal (a float \<open>s\<close> with \<^verbatim>\<open>0.0 <= s\<close>, so not
  NaN) the total is non-negative for every tier argument, and the VIP total is at
  most the Regular total, which is at most the total of tier None.
\<close>

theorem total_nonneg_and_ordered:
  assumes "fle (Finite 0) s"
  shows "(\<exists>t. total_with_tax_and_discount s user_type = Inr t \<and> fle (Finite 0) t)
    \<and> (\<exists>v r n. total_with_tax_and_discount s 2 = Inr v
          \<and> total_with_tax_and_discount s 1 = Inr r
          \<and> total_with_tax_and_discount s 0 = Inr n
          \<and> fle v r \<and> fle r n)"
proof -
  let ?t = "2437573298314281 / 2251799813685248 :: rat"
  let ?a = "3602879701896397 / 4503599627370496 :: rat"
  let ?b = "8106479329266893 / 9007199254740992 :: rat"
  have nn: "fle (Finite 0) (fmul (fmul s (Finite c)) (Finite ?t))" if "0 < c" for c
    using assms that by (intro fmul_nonneg) simp_all
  have "fle (Finite 0) (fmul (fmul s (Finite ?a)) (Finite ?t))"
       "fle (Finite 0) (fmul (fmul s (Finite ?b)) (Finite ?t))"
       "fle (Finite 0) (fmul (fmul s (Finite 1)) (Finite ?t))"
    by (rule nn, simp)+
  then have first: "\<exists>t. total_with_tax_and_discount s user_type = Inr t \<and> fle (Finite 0) t"
    by (cases "user_type = 1"; cases "user_type = 2") (simp_all add: total_cases)
  have vr: "fle (fmul (fmul s (Finite ?a)) (Finite ?t)) (fmul (fmul s (Finite ?b)) (Finite ?t))"
    using assms by (intro fmul_mono_left fmul_mono_right fmul_nonneg) simp_all
  have rn: "fle (fmul (fmul s (Finite ?b)) (Finite ?t)) (fmul (fmul s (Finite 1)) (Finite ?t))"
    using assms by (intro fmul_mono_left fmul_mono_right fmul_nonneg) simp_all
  show ?thesis using first vr rn by (simp add: total_cases)
qed

theorem total_nonneg_and_ordered_witness:
  "fle (Finite 0) (Finite 100)
   \<and> total_with_tax_and_discount (Finite 100) 2 = Inr (Finite (3046966622892851 / 35184372088832))
   \<and> total_with_tax_and_discount (Finite 100) 1 = Inr (Finite (6855674901508915 / 70368744177664))
   \<and> total_with_tax_and_discount (Finite 100) 0 = Inr (Finite (10825 / 100))
   \<and> fle (Finite 0) (Finite (3046966622892851 / 35184372088832))
   \<and> fle (Finite (3046966622892851 / 35184372088832)) (Finite (6855674901508915 / 70368744177664))
   \<and> fle (Finite (6855674901508915 / 70368744177664)) (Finite (10825 / 100))"
  using total_nonneg_and_ordered [of "Finite 100" 2]
  by (simp add: total_100_vip total_100_regular total_100_other)

section \<open>Results: process\_user\_data\<close>

lemma py_len_unsized: "unsized p \<Longrightarrow> py_len p = Inl TypeError"
  by (cases p) simp_all

lemma py_len_sized_pos: "\<not> unsized p \<Longrightarrow> py_len p = Inr n \<Longrightarrow> (0 < n) = nonempty_sized p"
  by (cases p) auto

lemma py_len_sized_Inl: "\<not> unsized p \<Longrightarrow> py_len p \<noteq> Inl e"
  by (cases p) auto

lemma item_selected_ill_typed:
  "ill_typed item \<Longrightarrow> item_selected item = Inl TypeError"
  unfolding ill_typed_def item_selected_def
  apply (cases "map_of item ''user''")
   apply simp
  subgoal for u
    apply (cases u)
          apply (auto split: option.splits sum.splits bool.splits simp: py_len_unsized)
    done
  done

lemma item_selected_well_typed:
  "\<not> ill_typed item \<Longrightarrow> item_selected item = Inr (accepted item)"
  unfolding ill_typed_def item_selected_def accepted_def user_accepted_def
  apply (cases "map_of item ''user''")
   apply simp
  subgoal for u
    apply (cases u)
          apply (auto split: option.splits sum.splits bool.splits
                      simp: py_len_sized_pos py_len_sized_Inl)
    done
  done

lemma process_loop_result:
  "process_loop data acc =
     (if list_ex ill_typed data then Inl TypeError else Inr (acc @ filter accepted data))"
proof (induction data arbitrary: acc)
  case Nil
  then show ?case by simp
next
  case (Cons item rest)
  show ?case
  proof (cases "ill_typed item")
    case True
    then show ?thesis by (simp add: item_selected_ill_typed)
  next
    case False
    then show ?thesis
      by (simp add: item_selected_well_typed Cons.IH)
  qed
qed

text \<open>
  Claim C10, as stated: for every input list, \<^verbatim>\<open>process_user_data\<close> returns the
  subsequence of the selected items. It fails on a list whose one item has the number 1
  under \<^verbatim>\<open>"user"\<close>: the item is non-empty, has the key, the value is truthy, and
  \<^verbatim>\<open>"active" in 1\<close> raises \<^verbatim>\<open>TypeError\<close>.
\<close>

theorem process_user_data_raises:
  "process_user_data [[(''user'', PInt 1)]] = Inl TypeError"
  by (simp add: process_user_data_def item_selected_def)

text \<open>
  Claim C10, amended: when some item of the input is ill-typed (its \<^verbatim>\<open>"user"\<close> value
  is a truthy boolean or number, or a string or list containing \<^verbatim>\<open>"active"\<close>, or a
  dictionary with a truthy \<^verbatim>\<open>"active"\<close> entry whose \<^verbatim>\<open>"permissions"\<close> entry has no
  length), the call raises \<^verbatim>\<open>TypeError\<close>; on every other input list it returns
  exactly the subsequence, in input order, of the items that are non-empty and have
  under \<^verbatim>\<open>"user"\<close> a non-empty dictionary with a truthy \<^verbatim>\<open>"active"\<close> entry and a
  non-empty string, list or dictionary under \<^verbatim>\<open>"permissions"\<close>. The input is only
  read.
\<close>

theorem process_user_data_filter:
  "process_user_data data =
     (if list_ex ill_typed data then Inl TypeError else Inr (filter accepted data))"
  by (simp add: process_user_data_def process_loop_result)

theorem process_user_data_filter_witness:
  "process_user_data [] = Inr []
   \<and> process_user_data
       [[(''user'', PDict [(''active'', PBool True), (''permissions'', PList [PStr ''read''])])],
        [],
        [(''user'', PDict [(''active'', PBool False), (''permissions'', PList [PStr ''read''])])],
        [(''user'', PDict [(''active'', PInt 1), (''permissions'', PStr ''rw'')])],
        [(''name'', PStr ''x'')]]
     = Inr [[(''user'', PDict [(''active'', PBool True), (''permissions'', PList [PStr ''read''])])],
            [(''user'', PDict [(''active'', PInt 1), (''permissions'', PStr ''rw'')])]]"
  using process_user_data_filter [of "[]"]
    process_user_data_filter
      [of "[[(''user'', PDict [(''active'', PBool True), (''permissions'', PList [PStr ''read''])])],
        [],
        [(''user'', PDict [(''active'', PBool False), (''permissions'', PList [PStr ''read''])])],
        [(''user'', PDict [(''active'', PInt 1), (''permissions'', PStr ''rw'')])],
        [(''name'', PStr ''x'')]]"]
  by (simp add: ill_typed_def accepted_def user_accepted_def)

section \<open>Results: UserManager\<close>

lemma update_user_age_loop_absent:
  "\<forall>user \<in> set us. dict_get user ''username'' \<noteq> PStr username \<Longrightarrow>
   update_user_age_loop us username age = (False, us)"
  by (induction us) auto

lemma update_user_age_absent:
  "\<forall>user \<in> set (users um). dict_get user ''username'' \<noteq> PStr username \<Longrightarrow>
   update_user_age um username age = Inr (False, um)"
  by (simp add: update_user_age_def update_user_age_loop_absent)

lemma update_user_age_loop_present:
  "\<forall>user \<in> set before. dict_get user ''username'' \<noteq> PStr username \<Longrightarrow>
   dict_get user ''username'' = PStr username \<Longrightarrow>
   update_user_age_loop (before @ user # rest) username age
     = (True, before @ dict_set user ''age'' age # rest)"
  by (induction before) auto

lemma update_user_age_present:
  "users um = before @ user # rest \<Longrightarrow>
   \<forall>user \<in> set before. dict_get user ''username'' \<noteq> PStr username \<Longrightarrow>
   dict_get user ''username'' = PStr username \<Longrightarrow>
   update_user_age um username age
     = Inr (True, um\<lparr>users := before @ dict_set user ''age'' age # rest\<rparr>)"
  by (simp add: update_user_age_def update_user_age_loop_present)

text \<open>
  Claim C7 says that \<^verbatim>\<open>update_user_age\<close> fails with \<^verbatim>\<open>InvalidAge\<close> on a negative age
  or one above 150 and leaves the registry unchanged. The method has no check on
  \<open>age\<close> (its own comments: "No validation, possible type issues", "No bounds/type
  check"): no call raises, whatever the age, and with the user \<^verbatim>\<open>bob\<close> registered
  \<^verbatim>\<open>update_user_age("bob", -5)\<close> returns \<^verbatim>\<open>True\<close> and stores the age -5. The rest of
  the claim holds (\<open>update_user_age_absent\<close>, \<open>update_user_age_present\<close>).
\<close>

theorem update_user_age_no_validation:
  "(\<exists>r um'. update_user_age um username age = Inr (r, um'))
   \<and> update_user_age
        \<lparr>users = [[(''username'', PStr ''bob'')]], config = GLOBAL_CONFIG\<rparr> ''bob'' (PInt (- 5))
     = Inr (True,
        \<lparr>users = [[(''username'', PStr ''bob''), (''age'', PInt (- 5))]],
           config = GLOBAL_CONFIG\<rparr>)"
  by (simp add: update_user_age_def dict_get_def dict_set_def split: prod.splits)

text \<open>
  Claim C8 says that \<^verbatim>\<open>add_user\<close> fails with \<^verbatim>\<open>InvalidUser\<close> on a null record or a
  record with an empty username, and does not silently ignore the input. The method
  has no error path (its own comment: "Poor naming, no error handling"): \<^verbatim>\<open>None\<close>
  and the empty dictionary are ignored and the call returns normally, and a record
  whose username is the empty string is appended, so the registry grows by one.
\<close>

theorem add_user_no_validation:
  "add_user um None = Inr um
   \<and> add_user um (Some []) = Inr um
   \<and> add_user new_user_manager (Some [(''username'', PStr [])])
     = Inr \<lparr>users = [[(''username'', PStr [])]], config = GLOBAL_CONFIG\<rparr>"
  by (simp add: add_user_def new_user_manager_def)

section \<open>Results: OrderManager.create\_order\<close>

text \<open>
  Claim C4 says that \<^verbatim>\<open>create_order\<close> issues a parameterized statement whose text
  does not depend on the user and the amount. The method interpolates both into the
  text (its own comment: "Unsafe SQL concat"; the module's closing note: "FIXME: Remove
  hardcoded secrets and insecure SQL") and binds no parameter: two users give two
  texts, and a user name with a quote in it ends the string literal inside the
  statement. The parameterized form is the one of \<open>find_user_safe\<close>.
\<close>

theorem create_order_interpolates:
  "sql (create_order_execute fmt ''alice'' amount) \<noteq> sql (create_order_execute fmt ''bob'' amount)
   \<and> parameters (create_order_execute fmt username amount) = []
   \<and> sql (create_order_execute (\<lambda>a. ''0'') (''x'' @ [CHR 0x27] @ '', 0); --'') amount)
     = ''INSERT INTO orders(user, amount) VALUES ('' @ [CHR 0x27] @ ''x'' @ [CHR 0x27]
         @ '', 0); --'' @ [CHR 0x27] @ '', 0)''
   \<and> sql (find_user_safe ''alice'') = sql (find_user_safe ''bob'')"
  by (simp add: create_order_execute_def create_order_sql_def find_user_safe_def)

section \<open>Results: init\_db\<close>

text \<open>
  Claim C6 says that \<^verbatim>\<open>init_db\<close> creates the table only if absent, so that a second
  call on the same backing store does not raise. The statement has no
  \<^verbatim>\<open>IF NOT EXISTS\<close> (the function's own comment says so): on a database file the first
  call creates the table and the second raises \<^verbatim>\<open>sqlite3.OperationalError\<close>. The store
  is then as the first call left it, with one \<^verbatim>\<open>orders\<close> table.
\<close>

theorem init_db_twice_raises:
  "(let s1 = snd (init_db ''orders.db'' Map.empty) in
      fst (init_db ''orders.db'' Map.empty) = Inr ()
      \<and> s1 ''orders.db'' \<noteq> None
      \<and> init_db ''orders.db'' s1 = (Inl OperationalError, s1))"
  by (simp add: init_db_def connect_def execute_create_orders_def)

section \<open>Results: increment\_shared\_counter\<close>

lemma run_append: "run (xs @ ys) s = run ys (run xs s)"
  by (induction xs arbitrary: s) simp_all

lemma run_round_robin:
  "n \<le> m \<Longrightarrow>
   run (concat (replicate n [0, 1, 2, 3, 0, 1, 2, 3]))
     \<lparr>SHARED_COUNTER = c,
        workers = [\<lparr>remaining = m, loaded = None\<rparr>, \<lparr>remaining = m, loaded = None\<rparr>,
                   \<lparr>remaining = m, loaded = None\<rparr>, \<lparr>remaining = m, loaded = None\<rparr>]\<rparr>
   = \<lparr>SHARED_COUNTER = c + int n,
        workers = [\<lparr>remaining = m - n, loaded = None\<rparr>, \<lparr>remaining = m - n, loaded = None\<rparr>,
                   \<lparr>remaining = m - n, loaded = None\<rparr>, \<lparr>remaining = m - n, loaded = None\<rparr>]\<rparr>"
proof (induction n arbitrary: c m)
  case 0
  then show ?case by simp
next
  case (Suc n)
  then obtain m' where m: "m = Suc m'" "n \<le> m'" by (cases m) auto
  have one: "run [0, 1, 2, 3, 0, 1, 2, 3]
     \<lparr>SHARED_COUNTER = c,
        workers = [\<lparr>remaining = Suc m', loaded = None\<rparr>, \<lparr>remaining = Suc m', loaded = None\<rparr>,
                   \<lparr>remaining = Suc m', loaded = None\<rparr>, \<lparr>remaining = Suc m', loaded = None\<rparr>]\<rparr>
    = \<lparr>SHARED_COUNTER = c + 1,
        workers = [\<lparr>remaining = m', loaded = None\<rparr>, \<lparr>remaining = m', loaded = None\<rparr>,
                   \<lparr>remaining = m', loaded = None\<rparr>, \<lparr>remaining = m', loaded = None\<rparr>]\<rparr>"
    by (simp add: step_def worker_step_def numeral_eq_Suc)
  have "run (concat (replicate (Suc n) [0, 1, 2, 3, 0, 1, 2, 3]))
     \<lparr>SHARED_COUNTER = c,
        workers = [\<lparr>remaining = m, loaded = None\<rparr>, \<lparr>remaining = m, loaded = None\<rparr>,
                   \<lparr>remaining = m, loaded = None\<rparr>, \<lparr>remaining = m, loaded = None\<rparr>]\<rparr>
    = run (concat (replicate n [0, 1, 2, 3, 0, 1, 2, 3]))
       \<lparr>SHARED_COUNTER = c + 1,
        workers = [\<lparr>remaining = m', loaded = None\<rparr>, \<lparr>remaining = m', loaded = None\<rparr>,
                   \<lparr>remaining = m', loaded = None\<rparr>, \<lparr>remaining = m', loaded = None\<rparr>]\<rparr>"
    unfolding m(1) replicate_Suc concat.simps run_append one ..
  then show ?case using Suc.IH [OF m(2), of "c + 1"] m(1)
    by simp
qed

text \<open>
  Claim C2 says that after all workers are joined the counter equals the sum of the
  requested increments, 40000 for the four workers of \<^verbatim>\<open>main\<close>. The increment is not
  under a lock (the function's own comment: "Race condition: SHARED_COUNTER is
  modified from multiple threads without locks"; the test module reads a
  \<^verbatim>\<open>SHARED_COUNTER_LOCK\<close> the module does not define). With the schedule in which, in
  every round, the four workers all read the counter before any of them writes it
  back, the four workers of \<^verbatim>\<open>main\<close> all finish and the counter is 10000. Two workers
  with one increment each end at 1 when both read first, and at 2 when they run one
  after the other.
\<close>

theorem increment_shared_counter_lost_updates:
  "(let s = run (concat (replicate 10000 [0, 1, 2, 3, 0, 1, 2, 3]))
              (start_threads 0 [10000, 10000, 10000, 10000])
    in all_joined s \<and> SHARED_COUNTER s = 10000)
   \<and> SHARED_COUNTER (run [0, 1, 0, 1] (start_threads 0 [1, 1])) = 1
   \<and> SHARED_COUNTER (run [0, 0, 1, 1] (start_threads 0 [1, 1])) = 2"
proof -
  have "run (concat (replicate 10000 [0, 1, 2, 3, 0, 1, 2, 3]))
              (start_threads 0 [10000, 10000, 10000, 10000])
        = \<lparr>SHARED_COUNTER = 0 + int 10000,
        workers = [\<lparr>remaining = 10000 - 10000, loaded = None\<rparr>,
                   \<lparr>remaining = 10000 - 10000, loaded = None\<rparr>,
                   \<lparr>remaining = 10000 - 10000, loaded = None\<rparr>,
                   \<lparr>remaining = 10000 - 10000, loaded = None\<rparr>]\<rparr>"
    unfolding start_threads_def list.map by (rule run_round_robin) simp
  moreover have "SHARED_COUNTER (run [0, 1, 0, 1] (start_threads 0 [1, 1])) = 1"
    by (simp add: start_threads_def step_def worker_step_def)
  moreover have "SHARED_COUNTER (run [0, 0, 1, 1] (start_threads 0 [1, 1])) = 2"
    by (simp add: start_threads_def step_def worker_step_def)
  ultimately show ?thesis by (simp add: all_joined_def)
qed

end
